theory Spec2Isabelle
  imports Main "HOL-Library.Word" "HOL-Library.AList_Mapping" "HOL-Library.Multiset"
begin

section \<open>Query planning of the Cassandra query benchmarker (query.go)\<close>

text \<open>
  The development embeds \<^verbatim>\<open>query_benchmarker_cassandra/query.go\<close>: the high-level query
  \<^verbatim>\<open>HLQuery\<close>, its planning method \<^verbatim>\<open>ToQueryPlan\<close> and the constructor \<^verbatim>\<open>NewCQLQuery\<close>.
  The file calls a few functions and uses a few types of the same package that are declared
  elsewhere (\<^verbatim>\<open>TimeInterval\<close>, \<^verbatim>\<open>Series\<close> and its four \<^verbatim>\<open>Matches...\<close> methods,
  \<^verbatim>\<open>ClientSideIndex\<close>, \<^verbatim>\<open>bucketTimeIntervals\<close>, \<^verbatim>\<open>QueryPlan\<close> and \<^verbatim>\<open>NewQueryPlan\<close>); each of
  them is modelled from the specification and marked so.
\<close>

subsection \<open>Time\<close>

text \<open>
  A \<^verbatim>\<open>time.Time\<close> is modelled by the number of nanoseconds since the Unix epoch, as an
  unbounded integer, and a \<^verbatim>\<open>time.Duration\<close> by a number of nanoseconds. Then
  \<^verbatim>\<open>t.Before(u)\<close> is \<open>t < u\<close> and \<^verbatim>\<open>t.After(u)\<close> is \<open>u < t\<close>. \<^verbatim>\<open>t.UnixNano()\<close> returns an
  \<^verbatim>\<open>int64\<close>: Go computes it in 64-bit arithmetic, so an instant outside the range of
  \<^verbatim>\<open>int64\<close> nanoseconds wraps around.
\<close>

type_synonym time = int

type_synonym duration = int

definition UnixNano :: "time \<Rightarrow> 64 word" where
  "UnixNano t = word_of_int t"

text \<open>
  Modelled from the spec: the type \<^verbatim>\<open>TimeInterval\<close> is declared outside query.go, which
  only reads its fields \<^verbatim>\<open>Start\<close> and \<^verbatim>\<open>End\<close> and uses it as a map key. The spec (section 3)
  makes it a value type with equality over (start, end).
\<close>

record TimeInterval =
  Start :: time
  End :: time

subsection \<open>Low-level queries\<close>

text \<open>
  \<^verbatim>\<open>Args\<close> is a \<^verbatim>\<open>[]interface{}\<close>; the values stored in it are a string (the row name) and
  two \<^verbatim>\<open>int64\<close>.
\<close>

datatype arg = ArgString string | ArgInt64 "64 word"

record CQLQuery =
  PreparableQueryString :: string
  Args :: "arg list"

definition NewCQLQuery :: "string \<Rightarrow> string \<Rightarrow> string \<Rightarrow> 64 word \<Rightarrow> 64 word \<Rightarrow> CQLQuery" where
  "NewCQLQuery aggrLabel tableName rowName timeStartNanos timeEndNanos =
     (let preparableQueryString =
            ''SELECT '' @ aggrLabel @ ''(value) FROM '' @ tableName
              @ '' WHERE series_id = ? AND timestamp_ns >= ? AND timestamp_ns < ?'';
          args = [ArgString rowName, ArgInt64 timeStartNanos, ArgInt64 timeEndNanos]
      in \<lparr>PreparableQueryString = preparableQueryString, Args = args\<rparr>)"

subsection \<open>Series and the client-side index\<close>

text \<open>
  Modelled from the spec: the type \<^verbatim>\<open>Series\<close> is declared outside query.go, which reads
  its fields \<^verbatim>\<open>Table\<close> and \<^verbatim>\<open>Id\<close> and calls its four predicate methods. The other
  attributes are those of the spec (section 3): measurement name, field name, tag set and
  the validity window of the series. The field \<^verbatim>\<open>Id\<close> is named \<open>SeriesId\<close> here, since
  \<open>Id\<close> is the identity relation of HOL.
\<close>

record Series =
  Table :: string
  SeriesId :: string
  Measurement :: string
  Field :: string
  Tags :: "string list"
  Window :: TimeInterval

text \<open>
  Modelled from the spec: \<^verbatim>\<open>MatchesMeasurementName\<close> is absent from query.go; the spec
  (section 4.2) makes it exact equality against the measurement name of the series.
\<close>

definition MatchesMeasurementName :: "Series \<Rightarrow> string \<Rightarrow> bool" where
  "MatchesMeasurementName s name = (Measurement s = name)"

text \<open>
  Modelled from the spec: \<^verbatim>\<open>MatchesFieldName\<close> is absent from query.go; the spec
  (section 4.2) makes it exact equality against the field name of the series.
\<close>

definition MatchesFieldName :: "Series \<Rightarrow> string \<Rightarrow> bool" where
  "MatchesFieldName s name = (Field s = name)"

text \<open>
  Modelled from the spec: \<^verbatim>\<open>MatchesTagSets\<close> is absent from query.go. The spec (sections
  4.2 and 8): the tag filter of the query is a list of tag groups; a tag predicate is a string
  such as \<^verbatim>\<open>host=X\<close>, which a series satisfies when its tag set holds that tag; the series
  matches if there is at least one group all of whose tag predicates it satisfies, and an
  empty filter, with no group, always matches.
\<close>

definition MatchesTagSets :: "Series \<Rightarrow> string list list \<Rightarrow> bool" where
  "MatchesTagSets s tagsets =
     (if tagsets = [] then True
      else list_ex (\<lambda>tagset. list_all (\<lambda>tag. tag \<in> set (Tags s)) tagset) tagsets)"

text \<open>
  Modelled from the spec: \<^verbatim>\<open>MatchesTimeInterval\<close> is absent from query.go; the spec
  (section 4.2) asks that the validity window of the series and the given interval, both
  half-open, have a non-empty intersection.
\<close>

definition MatchesTimeInterval :: "Series \<Rightarrow> TimeInterval \<Rightarrow> bool" where
  "MatchesTimeInterval s ti =
     (max (Start (Window s)) (Start ti) < min (End (Window s)) (End ti))"

text \<open>
  Modelled from the spec: \<^verbatim>\<open>ClientSideIndex\<close> and \<^verbatim>\<open>CopyOfSeriesCollection\<close> are absent
  from query.go; the spec (sections 3 and 4.2) makes the index a container of all known
  series and the snapshot an independent copy of that collection.
\<close>

record ClientSideIndex =
  SeriesCollection :: "Series list"

definition CopyOfSeriesCollection :: "ClientSideIndex \<Rightarrow> Series list" where
  "CopyOfSeriesCollection csi = SeriesCollection csi"

subsection \<open>The time bucketer\<close>

text \<open>
  Modelled from the spec: \<^verbatim>\<open>bucketTimeIntervals\<close> is absent from query.go. Section 4.1 of
  the spec: a zero bucket width gives the one interval \<open>[start, end]\<close>; equal start and end
  give one degenerate interval; otherwise interval \<open>k\<close> is
  \<open>[start + k * width, start + (k + 1) * width)\<close>, as long as its start is before the end.
  The contract of the spec has a width that is not negative; the loop below yields no
  interval for a negative one.
\<close>

function bucketsFrom :: "time \<Rightarrow> time \<Rightarrow> duration \<Rightarrow> TimeInterval list" where
  "bucketsFrom cur stop width =
     (if 0 < width \<and> cur < stop
      then \<lparr>Start = cur, End = cur + width\<rparr> # bucketsFrom (cur + width) stop width
      else [])"
  by pat_completeness auto
termination
  by (relation "measure (\<lambda>(cur, stop, width). nat (stop - cur))") auto

declare bucketsFrom.simps [simp del]

definition bucketTimeIntervals :: "time \<Rightarrow> time \<Rightarrow> duration \<Rightarrow> TimeInterval list" where
  "bucketTimeIntervals start stop width =
     (if width = 0 then [\<lparr>Start = start, End = stop\<rparr>]
      else if start = stop then [\<lparr>Start = start, End = stop\<rparr>]
      else bucketsFrom start stop width)"

subsection \<open>High-level queries and query plans\<close>

record HLQuery =
  HumanLabel :: string
  HumanDescription :: string
  ID :: "64 word"
  MeasurementName :: string
  FieldName :: string
  AggregationType :: string
  TimeStart :: time
  TimeEnd :: time
  GroupByDuration :: duration
  TagSets :: "string list list"

text \<open>
  Modelled from the spec: \<^verbatim>\<open>QueryPlan\<close> and \<^verbatim>\<open>NewQueryPlan\<close> are absent from query.go,
  which passes the aggregation label and the map of buckets to the constructor and returns
  its plan and its error. The spec makes the plan a mapping from time interval to a sequence
  of low-level queries (section 3) whose construction fails on an inconsistent bucket set,
  for instance a malformed interval, and reports the failure as an error value (sections
  4.3 and 7). An interval whose end is before its start is malformed.
\<close>

datatype error = PlanAssemblyFailure

record QueryPlan =
  AggregatorLabel :: string
  BucketedCQLQueries :: "(TimeInterval, CQLQuery list) mapping"

definition NewQueryPlan ::
  "string \<Rightarrow> (TimeInterval, CQLQuery list) mapping \<Rightarrow> error + QueryPlan" where
  "NewQueryPlan aggrLabel bucketedCQLQueries =
     (if \<exists>ti \<in> Mapping.keys bucketedCQLQueries. End ti < Start ti
      then Inl PlanAssemblyFailure
      else Inr \<lparr>AggregatorLabel = aggrLabel, BucketedCQLQueries = bucketedCQLQueries\<rparr>)"

subsection \<open>ToQueryPlan\<close>

text \<open>
  The first loop of \<^verbatim>\<open>ToQueryPlan\<close>: every time bucket is entered into the map with an
  empty slice of series.
\<close>

definition emptyBuckets :: "TimeInterval list \<Rightarrow> (TimeInterval, Series list) mapping" where
  "emptyBuckets tis = fold (\<lambda>ti bucketedSeries. Mapping.update ti [] bucketedSeries) tis Mapping.empty"

text \<open>
  \<^verbatim>\<open>bucketedSeries[ti] = append(bucketedSeries[ti], s)\<close>: reading a key that the map does
  not hold gives the nil slice.
\<close>

definition appendSeries ::
  "TimeInterval \<Rightarrow> Series \<Rightarrow> (TimeInterval, Series list) mapping \<Rightarrow> (TimeInterval, Series list) mapping" where
  "appendSeries ti s bucketedSeries =
     Mapping.update ti
       ((case Mapping.lookup bucketedSeries ti of None \<Rightarrow> [] | Some seriesSlice \<Rightarrow> seriesSlice) @ [s])
       bucketedSeries"

text \<open>
  The body of the loop over the series: the three quick skips, then the loop over the
  time buckets.
\<close>

definition matchSeries ::
  "HLQuery \<Rightarrow> TimeInterval list \<Rightarrow> Series \<Rightarrow> (TimeInterval, Series list) mapping
     \<Rightarrow> (TimeInterval, Series list) mapping" where
  "matchSeries q tis s bucketedSeries =
     (if \<not> MatchesMeasurementName s (MeasurementName q) then bucketedSeries
      else if \<not> MatchesFieldName s (FieldName q) then bucketedSeries
      else if \<not> MatchesTagSets s (TagSets q) then bucketedSeries
      else fold (\<lambda>ti bs. if \<not> MatchesTimeInterval s ti then bs else appendSeries ti s bs)
             tis bucketedSeries)"

definition bucketSeries ::
  "HLQuery \<Rightarrow> TimeInterval list \<Rightarrow> Series list \<Rightarrow> (TimeInterval, Series list) mapping" where
  "bucketSeries q tis seriesChoices = fold (matchSeries q tis) seriesChoices (emptyBuckets tis)"

text \<open>
  The body of the innermost loop of the conversion: the bounds of the bucket are clamped to
  the range of the query, and the low-level query is built from the clamped bounds.
\<close>

definition toCQLQuery :: "HLQuery \<Rightarrow> TimeInterval \<Rightarrow> Series \<Rightarrow> CQLQuery" where
  "toCQLQuery q ti ser =
     (let start = Start ti;
          stop = End ti;
          start = (if start < TimeStart q then TimeStart q else start);
          stop = (if TimeEnd q < stop then TimeEnd q else stop)
      in NewCQLQuery (AggregationType q) (Table ser) (SeriesId ser) (UnixNano start) (UnixNano stop))"

text \<open>
  The conversion loop ranges over the map \<^verbatim>\<open>bucketedSeries\<close>. Go leaves the order of that
  iteration to the runtime, so the model takes it as the argument \<open>order\<close>: the keys of
  the map in the order in which the runtime yields them.
\<close>

definition toCQLBuckets ::
  "TimeInterval list \<Rightarrow> HLQuery \<Rightarrow> (TimeInterval, Series list) mapping
     \<Rightarrow> (TimeInterval, CQLQuery list) mapping" where
  "toCQLBuckets order q bucketedSeries =
     fold (\<lambda>ti cqlBuckets.
             case Mapping.lookup bucketedSeries ti of
               None \<Rightarrow> cqlBuckets
             | Some seriesSlice \<Rightarrow> Mapping.update ti (map (toCQLQuery q ti) seriesSlice) cqlBuckets)
       order Mapping.empty"

definition ToQueryPlan :: "TimeInterval list \<Rightarrow> HLQuery \<Rightarrow> ClientSideIndex \<Rightarrow> error + QueryPlan" where
  "ToQueryPlan order q csi =
     (let seriesChoices = CopyOfSeriesCollection csi;
          tis = bucketTimeIntervals (TimeStart q) (TimeEnd q) (GroupByDuration q);
          bucketedSeries = bucketSeries q tis seriesChoices;
          cqlBuckets = toCQLBuckets order q bucketedSeries
      in NewQueryPlan (AggregationType q) cqlBuckets)"

subsection \<open>Vocabulary of the properties\<close>

text \<open>
  The four predicate tests of a series against a query and one time bucket, taken together.
\<close>

definition passesAllTests :: "HLQuery \<Rightarrow> Series \<Rightarrow> TimeInterval \<Rightarrow> bool" where
  "passesAllTests q s ti =
     (MatchesMeasurementName s (MeasurementName q) \<and> MatchesFieldName s (FieldName q)
      \<and> MatchesTagSets s (TagSets q) \<and> MatchesTimeInterval s ti)"

text \<open>The bounds of a bucket, clamped to the range \<open>[start, stop]\<close>.\<close>

definition clampedStart :: "time \<Rightarrow> TimeInterval \<Rightarrow> time" where
  "clampedStart start ti = max (Start ti) start"

definition clampedEnd :: "time \<Rightarrow> TimeInterval \<Rightarrow> time" where
  "clampedEnd stop ti = min (End ti) stop"

text \<open>The time buckets of a query: what \<open>ToQueryPlan\<close> asks of the time bucketer.\<close>

abbreviation queryBuckets :: "HLQuery \<Rightarrow> TimeInterval list" where
  "queryBuckets q \<equiv> bucketTimeIntervals (TimeStart q) (TimeEnd q) (GroupByDuration q)"

text \<open>
  The end-to-end scenario of the spec (section 8), used as the concrete input on which the
  theorems are instantiated: a query for the average of cpu/usage_user over \<open>[0, 120)\<close> in
  buckets of width 60, and an index of three series, of which \<open>A\<close> is valid over both
  buckets, \<open>B\<close> over the second only, and \<open>C\<close> belongs to another measurement. The
  runtime is taken to range over the bucket map from the second bucket to the first.
\<close>

definition scenarioQuery :: HLQuery where
  "scenarioQuery =
     \<lparr>HumanLabel = ''scenario'', HumanDescription = ''end-to-end scenario'', ID = 1,
      MeasurementName = ''cpu'', FieldName = ''usage_user'', AggregationType = ''avg'',
      TimeStart = 0, TimeEnd = 120, GroupByDuration = 60, TagSets = [[''host=X'']]\<rparr>"

definition seriesA :: Series where
  "seriesA =
     \<lparr>Table = ''series_double'', SeriesId = ''A'', Measurement = ''cpu'', Field = ''usage_user'',
      Tags = [''host=X''], Window = \<lparr>Start = 0, End = 200\<rparr>\<rparr>"

definition seriesB :: Series where
  "seriesB =
     \<lparr>Table = ''series_double'', SeriesId = ''B'', Measurement = ''cpu'', Field = ''usage_user'',
      Tags = [''host=X''], Window = \<lparr>Start = 70, End = 80\<rparr>\<rparr>"

definition seriesC :: Series where
  "seriesC =
     \<lparr>Table = ''series_double'', SeriesId = ''C'', Measurement = ''mem'', Field = ''usage_user'',
      Tags = [''host=X''], Window = \<lparr>Start = 0, End = 200\<rparr>\<rparr>"

definition scenarioIndex :: ClientSideIndex where
  "scenarioIndex = \<lparr>SeriesCollection = [seriesA, seriesB, seriesC]\<rparr>"

definition scenarioOrder :: "TimeInterval list" where
  "scenarioOrder = [\<lparr>Start = 60, End = 120\<rparr>, \<lparr>Start = 0, End = 60\<rparr>]"

section \<open>Properties\<close>

subsection \<open>The maps built by ToQueryPlan\<close>

lemma lookup_fold_empty_slices:
  "Mapping.lookup (fold (\<lambda>ti bs. Mapping.update ti [] bs) tis m) ti =
     (if ti \<in> set tis then Some [] else Mapping.lookup m ti)"
  by (induction tis arbitrary: m) (auto simp: Mapping.lookup_update')

lemma lookup_emptyBuckets:
  "Mapping.lookup (emptyBuckets tis) ti = (if ti \<in> set tis then Some [] else None)"
  by (simp add: emptyBuckets_def lookup_fold_empty_slices)

lemma lookup_appendSeries:
  "Mapping.lookup (appendSeries ti s m) ti' =
     (if ti = ti' then Some ((case Mapping.lookup m ti of None \<Rightarrow> [] | Some xs \<Rightarrow> xs) @ [s])
      else Mapping.lookup m ti')"
  by (simp add: appendSeries_def Mapping.lookup_update')

lemma lookup_fold_buckets:
  assumes "distinct tis"
  shows "Mapping.lookup
           (fold (\<lambda>ti bs. if \<not> MatchesTimeInterval s ti then bs else appendSeries ti s bs) tis m) ti =
         (if ti \<in> set tis \<and> MatchesTimeInterval s ti
          then Some ((case Mapping.lookup m ti of None \<Rightarrow> [] | Some xs \<Rightarrow> xs) @ [s])
          else Mapping.lookup m ti)"
  using assms
proof (induction tis arbitrary: m)
  case Nil
  then show ?case by simp
next
  case (Cons a tis)
  then show ?case by (auto simp: lookup_appendSeries)
qed

lemma lookup_matchSeries:
  assumes "distinct tis"
  shows "Mapping.lookup (matchSeries q tis s m) ti =
         (if ti \<in> set tis \<and> passesAllTests q s ti
          then Some ((case Mapping.lookup m ti of None \<Rightarrow> [] | Some xs \<Rightarrow> xs) @ [s])
          else Mapping.lookup m ti)"
  using assms by (simp add: matchSeries_def passesAllTests_def lookup_fold_buckets)

lemma lookup_fold_matchSeries_in:
  assumes "distinct tis" and "ti \<in> set tis" and "Mapping.lookup m ti = Some xs"
  shows "Mapping.lookup (fold (matchSeries q tis) ss m) ti =
           Some (xs @ filter (\<lambda>s. passesAllTests q s ti) ss)"
  using assms(3)
proof (induction ss arbitrary: m xs)
  case Nil
  then show ?case by simp
next
  case (Cons s ss)
  show ?case
  proof (cases "passesAllTests q s ti")
    case True
    have "Mapping.lookup (matchSeries q tis s m) ti = Some (xs @ [s])"
      using assms(1,2) Cons.prems True by (simp add: lookup_matchSeries)
    from Cons.IH [OF this] True show ?thesis by simp
  next
    case False
    have "Mapping.lookup (matchSeries q tis s m) ti = Some xs"
      using assms(1,2) Cons.prems False by (simp add: lookup_matchSeries)
    from Cons.IH [OF this] False show ?thesis by simp
  qed
qed

lemma lookup_fold_matchSeries_out:
  assumes "distinct tis" and "ti \<notin> set tis"
  shows "Mapping.lookup (fold (matchSeries q tis) ss m) ti = Mapping.lookup m ti"
  using assms by (induction ss arbitrary: m) (simp_all add: lookup_matchSeries)

lemma lookup_bucketSeries:
  assumes "distinct tis"
  shows "Mapping.lookup (bucketSeries q tis ss) ti =
           (if ti \<in> set tis then Some (filter (\<lambda>s. passesAllTests q s ti) ss) else None)"
proof (cases "ti \<in> set tis")
  case True
  then have "Mapping.lookup (emptyBuckets tis) ti = Some []"
    by (simp add: lookup_emptyBuckets)
  from lookup_fold_matchSeries_in [OF assms True this] True show ?thesis
    by (simp add: bucketSeries_def)
next
  case False
  then show ?thesis
    using assms by (simp add: bucketSeries_def lookup_fold_matchSeries_out lookup_emptyBuckets)
qed

text \<open>
  The keys of the bucket map are the time buckets, so the order in which the runtime ranges
  over the map is an enumeration of the time buckets.
\<close>

lemma keys_bucketSeries:
  assumes "distinct tis"
  shows "Mapping.keys (bucketSeries q tis ss) = set tis"
  using assms by (auto simp: keys_dom_lookup lookup_bucketSeries dom_def)

lemma lookup_fold_toCQL:
  "Mapping.lookup
     (fold (\<lambda>ti cb. case Mapping.lookup bs ti of None \<Rightarrow> cb
                     | Some seriesSlice \<Rightarrow> Mapping.update ti (map (toCQLQuery q ti) seriesSlice) cb)
        order m) ti =
   (if ti \<in> set order \<and> Mapping.lookup bs ti \<noteq> None
    then map_option (map (toCQLQuery q ti)) (Mapping.lookup bs ti)
    else Mapping.lookup m ti)"
  by (induction order arbitrary: m) (auto simp: Mapping.lookup_update' split: option.splits)

lemma lookup_toCQLBuckets:
  "Mapping.lookup (toCQLBuckets order q bs) ti =
     (if ti \<in> set order then map_option (map (toCQLQuery q ti)) (Mapping.lookup bs ti) else None)"
  by (auto simp: toCQLBuckets_def lookup_fold_toCQL)

lemma bucketsFrom_Start:
  "ti \<in> set (bucketsFrom cur stop width) \<Longrightarrow> cur \<le> Start ti \<and> End ti = Start ti + width \<and> 0 < width"
proof (induction cur stop width rule: bucketsFrom.induct)
  case (1 cur stop width)
  then show ?case
    by (subst (asm) (2) bucketsFrom.simps) (auto split: if_splits)
qed

lemma distinct_bucketsFrom: "distinct (bucketsFrom cur stop width)"
proof (induction cur stop width rule: bucketsFrom.induct)
  case (1 cur stop width)
  show ?case
  proof (cases "0 < width \<and> cur < stop")
    case True
    have "\<lparr>Start = cur, End = cur + width\<rparr> \<notin> set (bucketsFrom (cur + width) stop width)"
      using bucketsFrom_Start [of "\<lparr>Start = cur, End = cur + width\<rparr>" "cur + width" stop width] True
      by auto
    with 1 True show ?thesis by (subst bucketsFrom.simps) simp
  next
    case False
    then show ?thesis by (subst bucketsFrom.simps) auto
  qed
qed

lemma distinct_bucketTimeIntervals: "distinct (bucketTimeIntervals start stop width)"
  by (simp add: bucketTimeIntervals_def distinct_bucketsFrom)

lemma wellformed_bucketTimeIntervals:
  assumes "start \<le> stop" and "ti \<in> set (bucketTimeIntervals start stop width)"
  shows "Start ti \<le> End ti"
  using assms bucketsFrom_Start [of ti start stop width]
  by (auto simp: bucketTimeIntervals_def split: if_splits)

subsection \<open>The plan returned by ToQueryPlan\<close>

lemma toCQLQuery_clamped:
  "toCQLQuery q ti ser =
     NewCQLQuery (AggregationType q) (Table ser) (SeriesId ser)
       (UnixNano (clampedStart (TimeStart q) ti)) (UnixNano (clampedEnd (TimeEnd q) ti))"
  by (auto simp: toCQLQuery_def clampedStart_def clampedEnd_def max_def min_def Let_def)

lemma ToQueryPlan_Inr:
  assumes "ToQueryPlan order q csi = Inr qp"
  shows "AggregatorLabel qp = AggregationType q"
    and "BucketedCQLQueries qp =
           toCQLBuckets order q (bucketSeries q (queryBuckets q) (CopyOfSeriesCollection csi))"
  using assms by (auto simp: ToQueryPlan_def NewQueryPlan_def Let_def split: if_splits)

lemma lookup_plan_buckets:
  assumes "set order = set (queryBuckets q)"
  shows "Mapping.lookup
           (toCQLBuckets order q (bucketSeries q (queryBuckets q) ss)) ti =
         (if ti \<in> set (queryBuckets q)
          then Some (map (toCQLQuery q ti) (filter (\<lambda>s. passesAllTests q s ti) ss))
          else None)"
  using assms
  by (simp add: lookup_toCQLBuckets lookup_bucketSeries distinct_bucketTimeIntervals)

lemma keys_plan_buckets:
  assumes "set order = set (queryBuckets q)"
  shows "Mapping.keys (toCQLBuckets order q (bucketSeries q (queryBuckets q) ss))
           = set (queryBuckets q)"
  using assms by (auto simp: keys_dom_lookup lookup_plan_buckets dom_def)

lemma ToQueryPlan_succeeds:
  assumes "TimeStart q \<le> TimeEnd q" and "set order = set (queryBuckets q)"
  shows "ToQueryPlan order q csi =
           Inr \<lparr>AggregatorLabel = AggregationType q,
                BucketedCQLQueries =
                  toCQLBuckets order q (bucketSeries q (queryBuckets q) (CopyOfSeriesCollection csi))\<rparr>"
proof -
  have "\<not> (\<exists>ti \<in> set (queryBuckets q). End ti < Start ti)"
    using wellformed_bucketTimeIntervals [OF assms(1)] by fastforce
  then show ?thesis
    by (simp add: ToQueryPlan_def NewQueryPlan_def Let_def keys_plan_buckets [OF assms(2)])
qed

subsection \<open>Low-level query assembly\<close>

text \<open>
  Claim C8. \<open>NewCQLQuery\<close> is a total function that returns a query and no error, so it
  never fails. Its statement text depends on the aggregation label and the table name only:
  two calls with the same label and table give the same text whatever the row name and the
  time bounds are. The text is the fixed template around the label and the table, and the row
  name and the two time bounds are supplied in the argument list, in that order.
\<close>

theorem NewCQLQuery_statement_stable:
  "PreparableQueryString (NewCQLQuery aggrLabel tableName rowName timeStartNanos timeEndNanos)
     = PreparableQueryString (NewCQLQuery aggrLabel tableName rowName' timeStartNanos' timeEndNanos')
   \<and> PreparableQueryString (NewCQLQuery aggrLabel tableName rowName timeStartNanos timeEndNanos)
     = ''SELECT '' @ aggrLabel @ ''(value) FROM '' @ tableName
         @ '' WHERE series_id = ? AND timestamp_ns >= ? AND timestamp_ns < ?''
   \<and> Args (NewCQLQuery aggrLabel tableName rowName timeStartNanos timeEndNanos)
     = [ArgString rowName, ArgInt64 timeStartNanos, ArgInt64 timeEndNanos]"
  by (simp add: NewCQLQuery_def)

subsection \<open>The time bucketer\<close>

text \<open>
  Claim C5. For every start that is not after the end, a bucket width of zero gives exactly
  one interval, equal to \<open>[start, end]\<close>; and when start and end are equal, exactly one
  interval is produced whatever the width, the degenerate interval \<open>[start, start]\<close>.
\<close>

theorem bucketTimeIntervals_single_interval:
  assumes "start \<le> stop"
  shows "bucketTimeIntervals start stop 0 = [\<lparr>Start = start, End = stop\<rparr>]
         \<and> (start = stop \<longrightarrow> bucketTimeIntervals start stop width = [\<lparr>Start = start, End = stop\<rparr>])"
  by (simp add: bucketTimeIntervals_def)

theorem bucketTimeIntervals_single_interval_witness:
  "(0::int) \<le> 100 \<and> bucketTimeIntervals 0 100 0 = [\<lparr>Start = 0, End = 100\<rparr>]
   \<and> (7::int) \<le> 7 \<and> bucketTimeIntervals 7 7 60 = [\<lparr>Start = 7, End = 7\<rparr>]"
  using bucketTimeIntervals_single_interval [of 0 100 60]
    bucketTimeIntervals_single_interval [of 7 7 60]
  by simp

subsection \<open>The tag-set test\<close>

text \<open>
  Claim C2. For every tag filter and every series, the series passes the tag-set test if and
  only if the filter is empty or there is at least one group in the filter all of whose tag
  predicates the tag set of the series satisfies (an OR of ANDs); and the empty filter, with
  no group, matches every series.
\<close>

theorem MatchesTagSets_or_of_ands:
  "(MatchesTagSets s tagsets \<longleftrightarrow>
      tagsets = [] \<or> (\<exists>tagset \<in> set tagsets. \<forall>tag \<in> set tagset. tag \<in> set (Tags s)))
   \<and> MatchesTagSets s []"
  by (simp add: MatchesTagSets_def list_all_iff list_ex_iff)

theorem MatchesTagSets_or_of_ands_witness:
  "MatchesTagSets \<lparr>Table = ''cpu'', SeriesId = ''s1'', Measurement = ''cpu'', Field = ''usage_user'',
       Tags = [''c=3'', ''d=9''], Window = \<lparr>Start = 0, End = 10\<rparr>\<rparr> [[''a=1'', ''b=2''], [''c=3'']]
   \<and> \<not> MatchesTagSets \<lparr>Table = ''cpu'', SeriesId = ''s2'', Measurement = ''cpu'', Field = ''usage_user'',
       Tags = [''a=1''], Window = \<lparr>Start = 0, End = 10\<rparr>\<rparr> [[''a=1'', ''b=2''], [''c=3'']]
   \<and> MatchesTagSets \<lparr>Table = ''cpu'', SeriesId = ''s2'', Measurement = ''cpu'', Field = ''usage_user'',
       Tags = [''a=1''], Window = \<lparr>Start = 0, End = 10\<rparr>\<rparr> []"
  using MatchesTagSets_or_of_ands [of "\<lparr>Table = ''cpu'', SeriesId = ''s1'', Measurement = ''cpu'',
       Field = ''usage_user'', Tags = [''c=3'', ''d=9''], Window = \<lparr>Start = 0, End = 10\<rparr>\<rparr>"
       "[[''a=1'', ''b=2''], [''c=3'']]"]
    MatchesTagSets_or_of_ands [of "\<lparr>Table = ''cpu'', SeriesId = ''s2'', Measurement = ''cpu'',
       Field = ''usage_user'', Tags = [''a=1''], Window = \<lparr>Start = 0, End = 10\<rparr>\<rparr>"
       "[[''a=1'', ''b=2''], [''c=3'']]"]
    MatchesTagSets_or_of_ands [of "\<lparr>Table = ''cpu'', SeriesId = ''s2'', Measurement = ''cpu'',
       Field = ''usage_user'', Tags = [''a=1''], Window = \<lparr>Start = 0, End = 10\<rparr>\<rparr>" "[]"]
  by simp

subsection \<open>The planner\<close>

text \<open>The scenario satisfies the hypotheses of the theorems below, and its planning succeeds.\<close>

lemma scenario_order: "set scenarioOrder = set (queryBuckets scenarioQuery)"
  by code_simp

lemma scenario_range: "TimeStart scenarioQuery \<le> TimeEnd scenarioQuery"
  by code_simp

lemma scenario_plan:
  "ToQueryPlan scenarioOrder scenarioQuery csi =
     Inr \<lparr>AggregatorLabel = AggregationType scenarioQuery,
          BucketedCQLQueries =
            toCQLBuckets scenarioOrder scenarioQuery
              (bucketSeries scenarioQuery (queryBuckets scenarioQuery)
                 (CopyOfSeriesCollection csi))\<rparr>"
  by (rule ToQueryPlan_succeeds [OF scenario_range scenario_order])



text \<open>
  Claim C3. For every query whose start is not after its end and every index, the plan that
  \<open>ToQueryPlan\<close> returns successfully has exactly the intervals of the time bucketer as its
  keys, and every bucket in which no series of the snapshot passes the four tests is a key
  mapped to the empty list of queries.
\<close>

theorem ToQueryPlan_keys_are_buckets:
  assumes "TimeStart q \<le> TimeEnd q"
    and "set order = set (queryBuckets q)"
    and "ToQueryPlan order q csi = Inr qp"
  shows "Mapping.keys (BucketedCQLQueries qp) = set (queryBuckets q)
         \<and> (\<forall>ti \<in> set (queryBuckets q).
               (\<forall>s \<in> set (CopyOfSeriesCollection csi). \<not> passesAllTests q s ti)
               \<longrightarrow> Mapping.lookup (BucketedCQLQueries qp) ti = Some [])"
proof -
  have "Mapping.keys (BucketedCQLQueries qp) = set (queryBuckets q)"
    by (simp add: ToQueryPlan_Inr(2) [OF assms(3)] keys_plan_buckets [OF assms(2)])
  moreover have "Mapping.lookup (BucketedCQLQueries qp) ti = Some []"
    if "ti \<in> set (queryBuckets q)"
      and "\<forall>s \<in> set (CopyOfSeriesCollection csi). \<not> passesAllTests q s ti" for ti
    using that
    by (simp add: ToQueryPlan_Inr(2) [OF assms(3)] lookup_plan_buckets [OF assms(2)])
  ultimately show ?thesis by blast
qed

theorem ToQueryPlan_keys_are_buckets_witness:
  "\<exists>qp. ToQueryPlan scenarioOrder scenarioQuery \<lparr>SeriesCollection = [seriesB, seriesC]\<rparr> = Inr qp
     \<and> Mapping.keys (BucketedCQLQueries qp) = {\<lparr>Start = 0, End = 60\<rparr>, \<lparr>Start = 60, End = 120\<rparr>}
     \<and> Mapping.lookup (BucketedCQLQueries qp) \<lparr>Start = 0, End = 60\<rparr> = Some []"
proof -
  have buckets: "queryBuckets scenarioQuery = [\<lparr>Start = 0, End = 60\<rparr>, \<lparr>Start = 60, End = 120\<rparr>]"
    by code_simp
  have none: "\<forall>s \<in> set (CopyOfSeriesCollection \<lparr>SeriesCollection = [seriesB, seriesC]\<rparr>).
      \<not> passesAllTests scenarioQuery s \<lparr>Start = 0, End = 60\<rparr>"
    by code_simp
  from ToQueryPlan_keys_are_buckets [OF scenario_range scenario_order scenario_plan] buckets none
  show ?thesis
    using scenario_plan [of "\<lparr>SeriesCollection = [seriesB, seriesC]\<rparr>"] by auto
qed

text \<open>
  Claim C7. For every bucket of a plan that \<open>ToQueryPlan\<close> returns, the series placed into
  the bucket are the series of the snapshot that pass all four tests (measurement name, field
  name, tag sets, and time overlap with that bucket), in the order of the snapshot, and the
  queries of the bucket are the queries of those series. So a series appears in a bucket if
  and only if it passes the four tests: one that fails the measurement, field or tag test is
  in no bucket, and one that fails the time test of a bucket is left out of that bucket only.
\<close>

theorem ToQueryPlan_series_in_bucket_iff:
  assumes "set order = set (queryBuckets q)"
    and "ToQueryPlan order q csi = Inr qp"
    and "ti \<in> set (queryBuckets q)"
  shows "\<exists>placed.
           Mapping.lookup (bucketSeries q (queryBuckets q) (CopyOfSeriesCollection csi)) ti = Some placed
           \<and> Mapping.lookup (BucketedCQLQueries qp) ti = Some (map (toCQLQuery q ti) placed)
           \<and> placed = filter (\<lambda>s. passesAllTests q s ti) (CopyOfSeriesCollection csi)
           \<and> (\<forall>s. s \<in> set placed \<longleftrightarrow>
                  s \<in> set (CopyOfSeriesCollection csi)
                  \<and> MatchesMeasurementName s (MeasurementName q)
                  \<and> MatchesFieldName s (FieldName q)
                  \<and> MatchesTagSets s (TagSets q)
                  \<and> MatchesTimeInterval s ti)"
  using assms(3)
  by (auto simp: ToQueryPlan_Inr(2) [OF assms(2)] lookup_plan_buckets [OF assms(1)]
      lookup_bucketSeries distinct_bucketTimeIntervals passesAllTests_def)

theorem ToQueryPlan_series_in_bucket_iff_witness:
  "\<exists>qp. ToQueryPlan scenarioOrder scenarioQuery scenarioIndex = Inr qp
     \<and> Mapping.lookup (BucketedCQLQueries qp) \<lparr>Start = 0, End = 60\<rparr>
         = Some [toCQLQuery scenarioQuery \<lparr>Start = 0, End = 60\<rparr> seriesA]
     \<and> Mapping.lookup (BucketedCQLQueries qp) \<lparr>Start = 60, End = 120\<rparr>
         = Some [toCQLQuery scenarioQuery \<lparr>Start = 60, End = 120\<rparr> seriesA,
                 toCQLQuery scenarioQuery \<lparr>Start = 60, End = 120\<rparr> seriesB]"
proof -
  have b1: "\<lparr>Start = 0, End = 60\<rparr> \<in> set (queryBuckets scenarioQuery)"
    and b2: "\<lparr>Start = 60, End = 120\<rparr> \<in> set (queryBuckets scenarioQuery)"
    by code_simp+
  have f1: "filter (\<lambda>s. passesAllTests scenarioQuery s \<lparr>Start = 0, End = 60\<rparr>)
      (CopyOfSeriesCollection scenarioIndex) = [seriesA]"
    and f2: "filter (\<lambda>s. passesAllTests scenarioQuery s \<lparr>Start = 60, End = 120\<rparr>)
      (CopyOfSeriesCollection scenarioIndex) = [seriesA, seriesB]"
    by code_simp+
  from ToQueryPlan_series_in_bucket_iff [OF scenario_order scenario_plan b1]
    ToQueryPlan_series_in_bucket_iff [OF scenario_order scenario_plan b2] f1 f2
  show ?thesis
    using scenario_plan [of scenarioIndex] by auto
qed

text \<open>
  Claim C9. For a fixed query, two calls of the planner give plans with the same bucket keys
  and, for each bucket, query lists that are equal as multisets, whatever the order in which
  the runtime ranges over the bucket map in each call, and whatever the order in which each
  snapshot lists the series of the index. When the snapshot is the same list in both calls,
  the two plans are equal.
\<close>

theorem ToQueryPlan_deterministic:
  assumes "set order1 = set (queryBuckets q)"
    and "set order2 = set (queryBuckets q)"
    and "mset (CopyOfSeriesCollection csi1) = mset (CopyOfSeriesCollection csi2)"
    and "ToQueryPlan order1 q csi1 = Inr qp1"
  shows "\<exists>qp2. ToQueryPlan order2 q csi2 = Inr qp2
           \<and> Mapping.keys (BucketedCQLQueries qp1) = Mapping.keys (BucketedCQLQueries qp2)
           \<and> (\<forall>ti. map_option mset (Mapping.lookup (BucketedCQLQueries qp1) ti)
                     = map_option mset (Mapping.lookup (BucketedCQLQueries qp2) ti))
           \<and> (csi1 = csi2 \<longrightarrow> qp2 = qp1)"
proof -
  let ?b1 = "toCQLBuckets order1 q (bucketSeries q (queryBuckets q) (CopyOfSeriesCollection csi1))"
  let ?b2 = "toCQLBuckets order2 q (bucketSeries q (queryBuckets q) (CopyOfSeriesCollection csi2))"
  let ?qp2 = "\<lparr>AggregatorLabel = AggregationType q, BucketedCQLQueries = ?b2\<rparr>"
  have qp1: "BucketedCQLQueries qp1 = ?b1" and lbl: "AggregatorLabel qp1 = AggregationType q"
    using ToQueryPlan_Inr [OF assms(4)] by simp_all
  have keys1: "Mapping.keys ?b1 = set (queryBuckets q)"
    by (rule keys_plan_buckets [OF assms(1)])
  have keys2: "Mapping.keys ?b2 = set (queryBuckets q)"
    by (rule keys_plan_buckets [OF assms(2)])
  have "\<not> (\<exists>ti \<in> Mapping.keys ?b1. End ti < Start ti)"
    using assms(4) by (auto simp: ToQueryPlan_def NewQueryPlan_def Let_def split: if_splits)
  then have "\<not> (\<exists>ti \<in> set (queryBuckets q). End ti < Start ti)"
    unfolding keys1 .
  then have ok: "ToQueryPlan order2 q csi2 = Inr ?qp2"
    by (simp add: ToQueryPlan_def NewQueryPlan_def Let_def keys2)
  have msets: "map_option mset (Mapping.lookup ?b1 ti) = map_option mset (Mapping.lookup ?b2 ti)" for ti
  proof -
    have "mset (map (toCQLQuery q ti) (filter (\<lambda>s. passesAllTests q s ti) (CopyOfSeriesCollection csi1)))
        = mset (map (toCQLQuery q ti) (filter (\<lambda>s. passesAllTests q s ti) (CopyOfSeriesCollection csi2)))"
      by (simp add: assms(3))
    then show ?thesis
      by (simp add: lookup_plan_buckets [OF assms(1)] lookup_plan_buckets [OF assms(2)])
  qed
  have same: "?qp2 = qp1" if "csi1 = csi2"
  proof -
    have "Mapping.lookup ?b2 ti = Mapping.lookup ?b1 ti" for ti
      using that by (simp add: lookup_plan_buckets [OF assms(1)] lookup_plan_buckets [OF assms(2)])
    then have "?b2 = ?b1" by (rule mapping_eqI)
    with qp1 lbl show ?thesis by simp
  qed
  from ok keys1 keys2 qp1 msets same show ?thesis by auto
qed


theorem ToQueryPlan_deterministic_witness:
  "\<exists>qp1 qp2.
     ToQueryPlan scenarioOrder scenarioQuery scenarioIndex = Inr qp1
     \<and> ToQueryPlan (rev scenarioOrder) scenarioQuery \<lparr>SeriesCollection = [seriesC, seriesB, seriesA]\<rparr>
         = Inr qp2
     \<and> Mapping.keys (BucketedCQLQueries qp1) = Mapping.keys (BucketedCQLQueries qp2)
     \<and> (\<forall>ti. map_option mset (Mapping.lookup (BucketedCQLQueries qp1) ti)
               = map_option mset (Mapping.lookup (BucketedCQLQueries qp2) ti))
     \<and> ToQueryPlan (rev scenarioOrder) scenarioQuery scenarioIndex = Inr qp1"
proof -
  have o2: "set (rev scenarioOrder) = set (queryBuckets scenarioQuery)"
    using scenario_order by simp
  have perm: "mset (CopyOfSeriesCollection scenarioIndex)
      = mset (CopyOfSeriesCollection \<lparr>SeriesCollection = [seriesC, seriesB, seriesA]\<rparr>)"
    by (simp add: CopyOfSeriesCollection_def scenarioIndex_def)
  have same: "mset (CopyOfSeriesCollection scenarioIndex) = mset (CopyOfSeriesCollection scenarioIndex)"
    by simp
  from ToQueryPlan_deterministic [OF scenario_order o2 perm scenario_plan]
    ToQueryPlan_deterministic [OF scenario_order o2 same scenario_plan]
  show ?thesis
    using scenario_plan [of scenarioIndex] by auto
qed

text \<open>
  Claim C10. Every query in a plan that \<open>ToQueryPlan\<close> returns has a statement that ends
  with the conditions \<open>timestamp_ns >= ?\<close> and \<open>timestamp_ns < ?\<close>, in that order after the
  condition on the series, and an argument list that holds, after the row name, the clamped
  start and then the clamped end of its bucket: the start bound is inclusive and the end bound
  is exclusive.
\<close>

theorem ToQueryPlan_half_open_time_bound:
  assumes "set order = set (queryBuckets q)"
    and "ToQueryPlan order q csi = Inr qp"
    and "Mapping.lookup (BucketedCQLQueries qp) ti = Some queries"
    and "c \<in> set queries"
  shows "\<exists>selection rowName.
           PreparableQueryString c =
             selection @ '' WHERE series_id = ? AND timestamp_ns >= ? AND timestamp_ns < ?''
           \<and> Args c = [ArgString rowName,
                        ArgInt64 (UnixNano (clampedStart (TimeStart q) ti)),
                        ArgInt64 (UnixNano (clampedEnd (TimeEnd q) ti))]"
proof -
  from assms(3) have "queries = map (toCQLQuery q ti)
      (filter (\<lambda>s. passesAllTests q s ti) (CopyOfSeriesCollection csi))"
    by (auto simp: ToQueryPlan_Inr(2) [OF assms(2)] lookup_plan_buckets [OF assms(1)]
        split: if_splits)
  with assms(4) obtain ser where c: "c = toCQLQuery q ti ser"
    by auto
  have "PreparableQueryString c =
      (''SELECT '' @ AggregationType q @ ''(value) FROM '' @ Table ser)
        @ '' WHERE series_id = ? AND timestamp_ns >= ? AND timestamp_ns < ?''"
    by (simp add: c toCQLQuery_clamped NewCQLQuery_def)
  moreover have "Args c = [ArgString (SeriesId ser),
      ArgInt64 (UnixNano (clampedStart (TimeStart q) ti)),
      ArgInt64 (UnixNano (clampedEnd (TimeEnd q) ti))]"
    by (simp add: c toCQLQuery_clamped NewCQLQuery_def)
  ultimately show ?thesis by blast
qed

theorem ToQueryPlan_half_open_time_bound_witness:
  "\<exists>qp queries c.
     ToQueryPlan scenarioOrder scenarioQuery scenarioIndex = Inr qp
     \<and> Mapping.lookup (BucketedCQLQueries qp) \<lparr>Start = 60, End = 120\<rparr> = Some queries
     \<and> c \<in> set queries
     \<and> PreparableQueryString c =
          ''SELECT avg(value) FROM series_double WHERE series_id = ? AND timestamp_ns >= ? AND timestamp_ns < ?''
     \<and> Args c = [ArgString ''B'', ArgInt64 60, ArgInt64 120]"
proof -
  let ?ti = "\<lparr>Start = 60, End = 120\<rparr>"
  let ?queries = "[toCQLQuery scenarioQuery ?ti seriesA, toCQLQuery scenarioQuery ?ti seriesB]"
  let ?qp = "\<lparr>AggregatorLabel = AggregationType scenarioQuery,
      BucketedCQLQueries = toCQLBuckets scenarioOrder scenarioQuery
        (bucketSeries scenarioQuery (queryBuckets scenarioQuery) (CopyOfSeriesCollection scenarioIndex))\<rparr>"
  have l: "Mapping.lookup (BucketedCQLQueries ?qp) ?ti = Some ?queries"
    by code_simp
  have m: "toCQLQuery scenarioQuery ?ti seriesB \<in> set ?queries"
    by simp
  have t: "PreparableQueryString (toCQLQuery scenarioQuery ?ti seriesB) =
      ''SELECT avg(value) FROM series_double WHERE series_id = ? AND timestamp_ns >= ? AND timestamp_ns < ?''"
    and a: "Args (toCQLQuery scenarioQuery ?ti seriesB) = [ArgString ''B'', ArgInt64 60, ArgInt64 120]"
    by code_simp+
  from ToQueryPlan_half_open_time_bound [OF scenario_order scenario_plan l m] l m t a
  show ?thesis
    using scenario_plan [of scenarioIndex] by blast
qed

end
